theory Spec2Isabelle
  imports Main
begin

section \<open>Python strings\<close>

text \<open>
  A Python \<open>str\<close> is a sequence of Unicode code points; a code point is a natural
  number here, and \<open>lit\<close> reads a literal of the notebook.
\<close>

type_synonym codepoint = nat
type_synonym str = "codepoint list"

definition lit :: "string \<Rightarrow> str" where
  "lit s = map of_char s"

text \<open>
  \<open>str.lower()\<close>, \<open>str.isalpha()\<close> and \<open>str.isspace()\<close> read the Unicode database of
  the interpreter, and \<open>list(set(xs))\<close> lists a set in the order of its hash table.
  Neither is part of the notebook. The model writes the database out for U+0000 .. U+00FF,
  for U+0130 (whose lowercase is the two code points U+0069 U+0307) and for the Greek
  sigmas U+03A3, U+03C2, U+03C3, and takes the rest as a parameter: which of the other
  code points are alphabetic, what their lowercase is, when a capital sigma is in final
  position, and in which order the elements of a set are listed. The whitespace table is
  the complete one.
\<close>

record interp =
  alphabetic :: "codepoint \<Rightarrow> bool"
  to_lower :: "codepoint \<Rightarrow> str"
  final_sigma :: "str \<Rightarrow> nat \<Rightarrow> bool"
  set_order :: "str list \<Rightarrow> str \<Rightarrow> nat"

definition lower_cp :: "interp \<Rightarrow> codepoint \<Rightarrow> str" where
  "lower_cp I c =
     (if 65 \<le> c \<and> c \<le> 90 then [c + 32]
      else if 192 \<le> c \<and> c \<le> 222 \<and> c \<noteq> 215 then [c + 32]
      else if c < 256 then [c]
      else if c = 304 then [105, 775]
      else if c = 962 \<or> c = 963 then [c]
      else to_lower I c)"

text \<open>
  \<open>s.lower()\<close> maps every code point of \<open>s\<close> by the database, except a capital sigma
  U+03A3, which becomes U+03C2 in final position and U+03C3 elsewhere.
\<close>

definition lower_at :: "interp \<Rightarrow> str \<Rightarrow> nat \<Rightarrow> codepoint \<Rightarrow> str" where
  "lower_at I s i c =
     (if c = 931 then (if final_sigma I s i then [962] else [963]) else lower_cp I c)"

fun lower_from :: "interp \<Rightarrow> str \<Rightarrow> nat \<Rightarrow> str \<Rightarrow> str" where
  "lower_from I s i [] = []"
| "lower_from I s i (c # cs) = lower_at I s i c @ lower_from I s (Suc i) cs"

definition str_lower :: "interp \<Rightarrow> str \<Rightarrow> str" where
  "str_lower I s = lower_from I s 0 s"

definition isalpha_cp :: "interp \<Rightarrow> codepoint \<Rightarrow> bool" where
  "isalpha_cp I c =
     (if c < 256
      then (65 \<le> c \<and> c \<le> 90) \<or> (97 \<le> c \<and> c \<le> 122) \<or> c = 170 \<or> c = 181 \<or> c = 186
           \<or> (192 \<le> c \<and> c \<le> 214) \<or> (216 \<le> c \<and> c \<le> 246) \<or> 248 \<le> c
      else if c = 304 \<or> c = 931 \<or> c = 962 \<or> c = 963 then True
      else alphabetic I c)"

definition str_isalpha :: "interp \<Rightarrow> str \<Rightarrow> bool" where
  "str_isalpha I s = (s \<noteq> [] \<and> list_all (isalpha_cp I) s)"

definition isspace_cp :: "codepoint \<Rightarrow> bool" where
  "isspace_cp c =
     ((9 \<le> c \<and> c \<le> 13) \<or> (28 \<le> c \<and> c \<le> 32) \<or> c = 133 \<or> c = 160 \<or> c = 5760
      \<or> (8192 \<le> c \<and> c \<le> 8202) \<or> c = 8232 \<or> c = 8233 \<or> c = 8239 \<or> c = 8287
      \<or> c = 12288)"

text \<open>
  \<open>list(set(xs))\<close> holds every element of \<open>xs\<close> once, in the order of the interpreter.
\<close>

definition list_set :: "interp \<Rightarrow> str list \<Rightarrow> str list" where
  "list_set I xs = sort_key (set_order I xs) (remdups xs)"

text \<open>\<open>sorted(word)\<close> orders the characters of a string by code point.\<close>

definition sorted_str :: "str \<Rightarrow> str" where
  "sorted_str word = sort word"

text \<open>
  The exceptions that the operations of the notebook can raise. Every one of them is an
  \<open>Exception\<close>, so an \<open>except Exception\<close> clause catches it.
\<close>

datatype exn =
    KeyError | IndexError | FileNotFoundError | IsADirectoryError | NotADirectoryError
  | PermissionError | URLError | HTTPError | IncompleteRead | BadZipFile
  | UnicodeDecodeError | UnicodeEncodeError

text \<open>
  \<open>text[i]\<close>: a negative index counts from the end of the string, and an index outside
  the string raises \<open>IndexError\<close>.
\<close>

definition str_getitem :: "str \<Rightarrow> int \<Rightarrow> exn + codepoint" where
  "str_getitem text i =
     (if 0 \<le> i \<and> i < int (length text) then Inr (text ! nat i)
      else if - int (length text) \<le> i \<and> i < 0 then Inr (text ! nat (int (length text) + i))
      else Inl IndexError)"

text \<open>
  \<open>text[lo:hi]\<close>: a negative bound counts from the end, and both bounds are clipped to
  the string.
\<close>

definition slice_bound :: "str \<Rightarrow> int \<Rightarrow> int" where
  "slice_bound text i =
     (if i < 0 then max 0 (int (length text) + i) else min i (int (length text)))"

definition str_slice :: "str \<Rightarrow> int \<Rightarrow> int \<Rightarrow> str" where
  "str_slice text lo hi =
     take (nat (slice_bound text hi - slice_bound text lo)) (drop (nat (slice_bound text lo)) text)"

text \<open>
  \<open>text.find(sub, start)\<close>: the lowest index at or after \<open>start\<close> where \<open>sub\<close> begins,
  or \<open>-1\<close>. The empty string is found at every index up to the length of the text.
\<close>

fun find_scan :: "str \<Rightarrow> str \<Rightarrow> nat \<Rightarrow> nat option" where
  "find_scan sub [] i = (if sub = [] then Some i else None)"
| "find_scan sub (c # cs) i =
     (if take (length sub) (c # cs) = sub then Some i else find_scan sub cs (Suc i))"

definition str_find :: "str \<Rightarrow> str \<Rightarrow> int \<Rightarrow> int" where
  "str_find text sub start =
     (let n = int (length text);
          s = (if start < 0 then max 0 (start + n) else start)
      in if n < s then - 1
         else (case find_scan sub (drop (nat s) text) (nat s) of
                 None \<Rightarrow> - 1
               | Some j \<Rightarrow> int j))"

text \<open>\<open>corpus.replace(p, '')\<close> for a one-character string \<open>p\<close>.\<close>

definition str_remove :: "codepoint \<Rightarrow> str \<Rightarrow> str" where
  "str_remove p corpus = filter (\<lambda>c. c \<noteq> p) corpus"

text \<open>
  \<open>corpus.split()\<close> cuts at runs of whitespace and returns no empty string;
  \<open>data.split('\n')\<close> cuts at every separator and keeps the empty strings.
\<close>

fun split_ws :: "str \<Rightarrow> str \<Rightarrow> str list" where
  "split_ws cur [] = (if cur = [] then [] else [cur])"
| "split_ws cur (c # cs) =
     (if isspace_cp c then (if cur = [] then split_ws [] cs else cur # split_ws [] cs)
      else split_ws (cur @ [c]) cs)"

definition str_split :: "str \<Rightarrow> str list" where
  "str_split s = split_ws [] s"

fun split_at :: "codepoint \<Rightarrow> str \<Rightarrow> str \<Rightarrow> str list" where
  "split_at sep cur [] = [cur]"
| "split_at sep cur (c # cs) =
     (if c = sep then cur # split_at sep [] cs else split_at sep (cur @ [c]) cs)"

definition str_split_on :: "codepoint \<Rightarrow> str \<Rightarrow> str list" where
  "str_split_on sep s = split_at sep [] s"

section \<open>The anagram index\<close>

text \<open>
  \<^verbatim>\<open>
  def get_anagrams(words):
      anagram_dict = {}
      for word in words:
          word_sorted = ''.join(sorted(word)).lower()
          if word_sorted in anagram_dict:
              anagram_dict[word_sorted].append(word)
          else:
              anagram_dict[word_sorted] = [word]
      return anagram_dict
  \<close>
  The key of a word is computed by sorting first and lowercasing the sorted string.
\<close>

type_synonym anagram_dict = "str \<rightharpoonup> str list"

definition word_sorted :: "interp \<Rightarrow> str \<Rightarrow> str" where
  "word_sorted I word = str_lower I (sorted_str word)"

definition anagram_add :: "interp \<Rightarrow> anagram_dict \<Rightarrow> str \<Rightarrow> anagram_dict" where
  "anagram_add I d word =
     (case d (word_sorted I word) of
        Some l \<Rightarrow> d(word_sorted I word \<mapsto> l @ [word])
      | None \<Rightarrow> d(word_sorted I word \<mapsto> [word]))"

fun get_anagrams_loop :: "interp \<Rightarrow> anagram_dict \<Rightarrow> str list \<Rightarrow> anagram_dict" where
  "get_anagrams_loop I d [] = d"
| "get_anagrams_loop I d (word # words) = get_anagrams_loop I (anagram_add I d word) words"

definition get_anagrams :: "interp \<Rightarrow> str list \<Rightarrow> anagram_dict" where
  "get_anagrams I words = get_anagrams_loop I Map.empty words"

text \<open>
  \<^verbatim>\<open>
  def get_anagrams_from_word(anagram_dict, word):
      word_sorted = ''.join(sorted(word)).lower()
      if word_sorted in anagram_dict:
          return anagram_dict[word_sorted]
      else:
          return []
  \<close>
  Subscripting a dictionary raises \<open>KeyError\<close> on a key that is not there.
\<close>

definition dict_getitem :: "('k \<rightharpoonup> 'v) \<Rightarrow> 'k \<Rightarrow> exn + 'v" where
  "dict_getitem d k = (case d k of None \<Rightarrow> Inl KeyError | Some v \<Rightarrow> Inr v)"

definition get_anagrams_from_word :: "interp \<Rightarrow> anagram_dict \<Rightarrow> str \<Rightarrow> exn + str list" where
  "get_anagrams_from_word I d word =
     (if d (word_sorted I word) \<noteq> None then dict_getitem d (word_sorted I word) else Inr [])"

text \<open>The words of a collection that share a key, in the order of the collection.\<close>

definition sharing :: "interp \<Rightarrow> str list \<Rightarrow> str \<Rightarrow> str list" where
  "sharing I words k = filter (\<lambda>w. word_sorted I w = k) words"

text \<open>
  The signature of a word, in the words of the specification: the sorted, lowercased
  sequence of its letters, the case being removed before the letters are sorted.
\<close>

definition signature :: "interp \<Rightarrow> str \<Rightarrow> str" where
  "signature I word = sorted_str (str_lower I word)"

section \<open>Substring search\<close>

text \<open>
  \<^verbatim>\<open>
  def find_quotes(text, keyword):
      indices = []
      i = text.find(keyword)
      while i!=-1:
          indices.append(i)
          i = text.find(keyword, i+1)
      return indices
  \<close>
  The loop has no bound of its own, so the model is a partial function: \<open>None\<close> is a
  loop that does not end.
\<close>

partial_function (option)
  find_quotes_loop :: "str \<Rightarrow> str \<Rightarrow> int \<Rightarrow> int list \<Rightarrow> int list option" where
  "find_quotes_loop text keyword i indices =
     (if i \<noteq> - 1
      then find_quotes_loop text keyword (str_find text keyword (i + 1)) (indices @ [i])
      else Some indices)"

declare find_quotes_loop.simps [code]

definition find_quotes :: "str \<Rightarrow> str \<Rightarrow> int list option" where
  "find_quotes text keyword = find_quotes_loop text keyword (str_find text keyword 0) []"

text \<open>The keyword occurs in the text at offset \<open>i\<close>.\<close>

definition occurs_at :: "str \<Rightarrow> str \<Rightarrow> int \<Rightarrow> bool" where
  "occurs_at text keyword i =
     (0 \<le> i \<and> i + int (length keyword) \<le> int (length text)
      \<and> take (length keyword) (drop (nat i) text) = keyword)"

section \<open>Files, network and printed output\<close>

text \<open>
  The acquisition functions read and write files, fetch from the network and print. The
  model threads a \<open>world\<close> through them: the regular files with their bytes, the
  directories, the requests sent to the network so far, and the lines printed so far.
  Paths are compared as they are written. The empty path names nothing, and a path made
  of slashes only is the root directory.
\<close>

type_synonym bytes = "char list"

datatype message =
    Failed_to_download_to str str exn
  | Downloaded_to str str
  | Reading_from_cached_file str
  | Unexpected_text_format
  | Failed_to_download str exn
  | Failed_to_extract str exn

record world =
  files :: "str \<rightharpoonup> bytes"
  dirs :: "str set"
  fetched :: "str list"
  printed :: "message list"

text \<open>
  What lies outside the notebook is a parameter of the model: the answer of the network
  to a request (no connection; a connection that breaks after a part of the body; or the
  body), the members that a zip archive yields before it fails or ends (under the names
  that \<open>extractall\<close> writes them to), an error of the operating system when a directory
  is created, the codec of a file opened in text mode, and the table of code page 850.
\<close>

datatype remote = Unreachable exn | Broken bytes exn | Body bytes

record env =
  net :: "str \<Rightarrow> remote"
  unzip :: "bytes \<Rightarrow> (str \<times> bytes) list \<times> exn option"
  mkdir_error :: "str \<Rightarrow> exn option"
  text_decode :: "bytes \<Rightarrow> exn + str"
  text_encode :: "str \<Rightarrow> exn + bytes"
  cp850 :: "char \<Rightarrow> codepoint"

definition py_print :: "message \<Rightarrow> world \<Rightarrow> world" where
  "py_print m w = w\<lparr>printed := printed w @ [m]\<rparr>"

text \<open>\<open>os.path.join\<close> of two components and \<open>os.path.dirname\<close>.\<close>

definition path_join :: "str \<Rightarrow> str \<Rightarrow> str" where
  "path_join a b =
     (if take 1 b = [47] then b
      else if a = [] \<or> drop (length a - 1) a = [47] then a @ b
      else a @ [47] @ b)"

definition dirname :: "str \<Rightarrow> str" where
  "dirname p =
     (let head = rev (dropWhile (\<lambda>c. c \<noteq> 47) (rev p))
      in if list_all (\<lambda>c. c = 47) head then head
         else rev (dropWhile (\<lambda>c. c = 47) (rev head)))"

text \<open>\<open>os.path.exists\<close>: the path is a regular file or a directory.\<close>

definition file_at :: "world \<Rightarrow> str \<Rightarrow> bytes option" where
  "file_at w p = (if p = [] then None else files w p)"

definition is_dir :: "world \<Rightarrow> str \<Rightarrow> bool" where
  "is_dir w p = (p \<noteq> [] \<and> (list_all (\<lambda>c. c = 47) p \<or> p \<in> dirs w))"

definition path_exists :: "world \<Rightarrow> str \<Rightarrow> bool" where
  "path_exists w p = (file_at w p \<noteq> None \<or> is_dir w p)"

text \<open>
  \<open>os.makedirs(d)\<close> creates the directory and the directories above it. It raises
  \<open>FileNotFoundError\<close> for the empty path, and whatever the operating system refuses.
\<close>

definition ancestors :: "str \<Rightarrow> str list" where
  "ancestors d = [take i d. i \<leftarrow> [1..<length d], d ! i = 47]"

definition makedirs :: "env \<Rightarrow> str \<Rightarrow> world \<Rightarrow> (exn + unit) \<times> world" where
  "makedirs E d w =
     (if d = [] then (Inl FileNotFoundError, w)
      else case mkdir_error E d of
             Some e \<Rightarrow> (Inl e, w)
           | None \<Rightarrow> (Inr (), w\<lparr>dirs := dirs w \<union> set (ancestors d) \<union> {d}\<rparr>))"

text \<open>
  \<open>open(filepath, 'rb').read()\<close>, \<open>open(filepath).read()\<close> and
  \<open>open(filepath, "w").write(text)\<close>. A file cannot be opened for writing at the empty
  path, at a directory, or in a directory that does not exist. Opening for writing empties
  the file before the text is encoded.
\<close>

definition open_rb :: "world \<Rightarrow> str \<Rightarrow> exn + bytes" where
  "open_rb w p =
     (case file_at w p of
        Some b \<Rightarrow> Inr b
      | None \<Rightarrow> if is_dir w p then Inl IsADirectoryError else Inl FileNotFoundError)"

definition read_text :: "env \<Rightarrow> world \<Rightarrow> str \<Rightarrow> exn + str" where
  "read_text E w p = (case open_rb w p of Inl e \<Rightarrow> Inl e | Inr b \<Rightarrow> text_decode E b)"

definition open_w_error :: "world \<Rightarrow> str \<Rightarrow> exn option" where
  "open_w_error w p =
     (if p = [] then Some FileNotFoundError
      else if is_dir w p then Some IsADirectoryError
      else if dirname p = [] \<or> is_dir w (dirname p) then None
      else if file_at w (dirname p) \<noteq> None then Some NotADirectoryError
      else Some FileNotFoundError)"

definition write_text :: "env \<Rightarrow> str \<Rightarrow> str \<Rightarrow> world \<Rightarrow> (exn + unit) \<times> world" where
  "write_text E p text w =
     (case open_w_error w p of
        Some e \<Rightarrow> (Inl e, w)
      | None \<Rightarrow>
          (case text_encode E text of
             Inl e \<Rightarrow> (Inl e, w\<lparr>files := (files w)(p \<mapsto> [])\<rparr>)
           | Inr b \<Rightarrow> (Inr (), w\<lparr>files := (files w)(p \<mapsto> b)\<rparr>)))"

text \<open>
  \<open>urllib.request.urlretrieve(url, filepath)\<close> opens the connection, then the file, and
  copies the body to the file; when the connection breaks, the part already copied stays
  in the file. \<open>urllib.request.urlopen(url)\<close> opens the connection and returns a response
  whose \<open>read()\<close> gives the body or raises. Both send a request.
\<close>

definition urlretrieve :: "env \<Rightarrow> str \<Rightarrow> str \<Rightarrow> world \<Rightarrow> (exn + unit) \<times> world" where
  "urlretrieve E url filepath w =
     (let w' = w\<lparr>fetched := fetched w @ [url]\<rparr>
      in case net E url of
           Unreachable e \<Rightarrow> (Inl e, w')
         | Broken part e \<Rightarrow>
             (case open_w_error w' filepath of
                Some e' \<Rightarrow> (Inl e', w')
              | None \<Rightarrow> (Inl e, w'\<lparr>files := (files w')(filepath \<mapsto> part)\<rparr>))
         | Body b \<Rightarrow>
             (case open_w_error w' filepath of
                Some e' \<Rightarrow> (Inl e', w')
              | None \<Rightarrow> (Inr (), w'\<lparr>files := (files w')(filepath \<mapsto> b)\<rparr>)))"

definition urlopen :: "env \<Rightarrow> str \<Rightarrow> world \<Rightarrow> (exn + (exn + bytes)) \<times> world" where
  "urlopen E url w =
     (let w' = w\<lparr>fetched := fetched w @ [url]\<rparr>
      in case net E url of
           Unreachable e \<Rightarrow> (Inl e, w')
         | Broken part e \<Rightarrow> (Inr (Inl e), w')
         | Body b \<Rightarrow> (Inr (Inr b), w'))"

text \<open>
  \<open>z = ZipFile(BytesIO(zipcontent)); z.extractall(directory)\<close> writes the members below
  the directory, creating the directories they need, until the archive fails or ends.
\<close>

definition extractall :: "env \<Rightarrow> bytes \<Rightarrow> str \<Rightarrow> world \<Rightarrow> (exn + unit) \<times> world" where
  "extractall E zipcontent directory w =
     (case unzip E zipcontent of
        (members, err) \<Rightarrow>
          ((case err of Some e \<Rightarrow> Inl e | None \<Rightarrow> Inr ()),
           w\<lparr>files := fold (\<lambda>(name, b) f. f(path_join directory name \<mapsto> b)) members (files w),
             dirs := dirs w \<union> set (map (\<lambda>(name, b). dirname (path_join directory name)) members)\<rparr>))"

section \<open>Acquisition\<close>

text \<open>
  \<^verbatim>\<open>
  def download_text(url, destination_directory, filename):
      if not os.path.exists(destination_directory):
          os.makedirs(destination_directory)
      filepath = os.path.join(destination_directory, filename)
      if not os.path.exists(filepath):
          try:
              urllib.request.urlretrieve(url, filepath)
          except Exception as e:
              print(f"Failed to download {url} to {filepath}: {e}")
              return None
          print(f"Downloaded {url} to {filepath}")
      else:
          print(f"Reading from cached file {filepath}")
      with open(filepath) as f:
          text = f.read()
      return text
  \<close>
  A result \<open>Inl e\<close> is an exception that leaves the function, \<open>Inr None\<close> is the
  result \<open>None\<close> of the function.
\<close>

definition read_and_return :: "env \<Rightarrow> str \<Rightarrow> world \<Rightarrow> (exn + str option) \<times> world" where
  "read_and_return E filepath w =
     (case read_text E w filepath of Inl e \<Rightarrow> (Inl e, w) | Inr text \<Rightarrow> (Inr (Some text), w))"

definition download_text :: "env \<Rightarrow> str \<Rightarrow> str \<Rightarrow> str \<Rightarrow> world \<Rightarrow> (exn + str option) \<times> world" where
  "download_text E url destination_directory filename w =
     (case (if \<not> path_exists w destination_directory
            then makedirs E destination_directory w else (Inr (), w)) of
        (Inl e, w1) \<Rightarrow> (Inl e, w1)
      | (Inr u, w1) \<Rightarrow>
          (let filepath = path_join destination_directory filename
           in if \<not> path_exists w1 filepath
              then (case urlretrieve E url filepath w1 of
                      (Inl e, w2) \<Rightarrow>
                        (Inr None, py_print (Failed_to_download_to url filepath e) w2)
                    | (Inr u', w2) \<Rightarrow>
                        read_and_return E filepath (py_print (Downloaded_to url filepath) w2))
              else read_and_return E filepath
                     (py_print (Reading_from_cached_file filepath) w1)))"

text \<open>
  \<^verbatim>\<open>
  def filter_text(text, destination_directory, filename):
      filepath = os.path.join(destination_directory, filename)
      if os.path.exists(filepath):
          print(f"Reading from cached file {filepath}")
          with open(filepath) as f:
              return f.read()
      start_tok = "WILLIAM SHAKESPEARE ***"
      end_tok = "*** END OF THE PROJECT GUTENBERG EBOOK"
      start = text.find(start_tok)
      if start == -1:
          print("Unexpected text format")
          return None
      start += len(start_tok)
      while text[start] == '\n':
          start += 1
      end = text.find(end_tok)
      if end == -1:
          print("Unexpected text format")
          return None
      while text[end-1] == '\n':
          end -= 1
      filtered_text = text[start:end]
      with open(filepath, "w") as f:
          f.write(filtered_text)
      return filtered_text
  \<close>
  The two \<open>while\<close> loops index the text without a bound check, so each of them can
  leave the function with \<open>IndexError\<close>.
\<close>

definition start_tok :: str where
  "start_tok = lit ''WILLIAM SHAKESPEARE ***''"

definition end_tok :: str where
  "end_tok = lit ''*** END OF THE PROJECT GUTENBERG EBOOK''"

function skip_newlines :: "str \<Rightarrow> int \<Rightarrow> exn + int" where
  "skip_newlines text start =
     (case str_getitem text start of
        Inl e \<Rightarrow> Inl e
      | Inr c \<Rightarrow> if c = 10 then skip_newlines text (start + 1) else Inr start)"
  by pat_completeness auto
termination
  by (relation "measure (\<lambda>(text, start). nat (int (length text) - start))")
     (auto simp: str_getitem_def split: if_splits)

function back_newlines :: "str \<Rightarrow> int \<Rightarrow> exn + int" where
  "back_newlines text endpos =
     (case str_getitem text (endpos - 1) of
        Inl e \<Rightarrow> Inl e
      | Inr c \<Rightarrow> if c = 10 then back_newlines text (endpos - 1) else Inr endpos)"
  by pat_completeness auto
termination
  by (relation "measure (\<lambda>(text, endpos). nat (int (length text) + endpos))")
     (auto simp: str_getitem_def split: if_splits)

definition filter_text :: "env \<Rightarrow> str \<Rightarrow> str \<Rightarrow> str \<Rightarrow> world \<Rightarrow> (exn + str option) \<times> world" where
  "filter_text E text destination_directory filename w =
     (let filepath = path_join destination_directory filename
      in if path_exists w filepath
         then read_and_return E filepath (py_print (Reading_from_cached_file filepath) w)
         else
           (let start = str_find text start_tok 0
            in if start = - 1 then (Inr None, py_print Unexpected_text_format w)
               else
                 (case skip_newlines text (start + int (length start_tok)) of
                    Inl e \<Rightarrow> (Inl e, w)
                  | Inr start' \<Rightarrow>
                      (let endpos = str_find text end_tok 0
                       in if endpos = - 1 then (Inr None, py_print Unexpected_text_format w)
                          else
                            (case back_newlines text endpos of
                               Inl e \<Rightarrow> (Inl e, w)
                             | Inr endpos' \<Rightarrow>
                                 (let filtered_text = str_slice text start' endpos'
                                  in case write_text E filepath filtered_text w of
                                       (Inl e, w') \<Rightarrow> (Inl e, w')
                                     | (Inr u, w') \<Rightarrow> (Inr (Some filtered_text), w')))))))"

section \<open>Word lists\<close>

text \<open>
  \<^verbatim>\<open>
  def get_words(corpus):
      punctuation = ['.', ',', '!', '?', ';', ':', '(', ')', '[', ']', '{', '}', '"', "'"]
      for p in punctuation:
          corpus = corpus.replace(p, '')
      words = list(set(corpus.split()))
      filtered_words = []
      for word in words:
          if word.isalpha():
              filtered_words.append(word.lower())
      filtered_words = list(set(filtered_words))
      return filtered_words
  \<close>
  The tokens of the corpus are the strings that \<open>split()\<close> returns once the
  punctuation is removed.
\<close>

definition punctuation :: "codepoint list" where
  "punctuation = [46, 44, 33, 63, 59, 58, 40, 41, 91, 93, 123, 125, 34, 39]"

definition tokens :: "str \<Rightarrow> str list" where
  "tokens corpus = str_split (fold str_remove punctuation corpus)"

fun lower_alpha_words :: "interp \<Rightarrow> str list \<Rightarrow> str list \<Rightarrow> str list" where
  "lower_alpha_words I filtered_words [] = filtered_words"
| "lower_alpha_words I filtered_words (word # words) =
     (if str_isalpha I word
      then lower_alpha_words I (filtered_words @ [str_lower I word]) words
      else lower_alpha_words I filtered_words words)"

definition get_words :: "interp \<Rightarrow> str \<Rightarrow> str list" where
  "get_words I corpus =
     (let words = list_set I (tokens corpus);
          filtered_words = lower_alpha_words I [] words
      in list_set I filtered_words)"

text \<open>
  \<^verbatim>\<open>
  def get_uk_english_word_list(directory):
      filename = "ukenglish.txt"
      filepath = os.path.join(directory, filename)
      if os.path.exists(filepath):
          print(f"Reading from cached file {filepath}")
          with open(filepath, 'rb') as f:
              words = f.read().decode('cp850').split('\n')
      else:
          url = "http://www.gwicks.net/textlists/ukenglish.zip"
          response = urllib.request.urlopen(url)
          try:
              zipcontent = response.read()
          except Exception as e:
              print(f"Failed to download {url}: {e}")
              return None
          try:
              z = ZipFile(BytesIO(zipcontent))
              z.extractall(directory)
          except Exception as e:
              print(f"Failed to extract {url}: {e}")
              return None
          with open(f"{directory}/ukenglish.txt", 'rb') as f:
              data = f.read().decode('cp850')
          words = data.split('\n')
      filtered_words = []
      for word in words:
          if word != word.lower() or not word.isalpha():
              continue
          filtered_words.append(word)
      return filtered_words
  \<close>
  \<open>urlopen\<close> is called before the first \<open>try\<close>.
\<close>

definition uk_url :: str where
  "uk_url = lit ''http://www.gwicks.net/textlists/ukenglish.zip''"

definition decode_cp850 :: "env \<Rightarrow> bytes \<Rightarrow> str" where
  "decode_cp850 E b = map (cp850 E) b"

fun uk_filter :: "interp \<Rightarrow> str list \<Rightarrow> str list \<Rightarrow> str list" where
  "uk_filter I filtered_words [] = filtered_words"
| "uk_filter I filtered_words (word # words) =
     (if word \<noteq> str_lower I word \<or> \<not> str_isalpha I word
      then uk_filter I filtered_words words
      else uk_filter I (filtered_words @ [word]) words)"

definition get_uk_english_word_list ::
  "interp \<Rightarrow> env \<Rightarrow> str \<Rightarrow> world \<Rightarrow> (exn + str list option) \<times> world" where
  "get_uk_english_word_list I E directory w =
     (let filename = lit ''ukenglish.txt'';
          filepath = path_join directory filename
      in if path_exists w filepath
         then
           (let w1 = py_print (Reading_from_cached_file filepath) w
            in case open_rb w1 filepath of
                 Inl e \<Rightarrow> (Inl e, w1)
               | Inr b \<Rightarrow> (Inr (Some (uk_filter I [] (str_split_on 10 (decode_cp850 E b)))), w1))
         else
           (let url = uk_url
            in case urlopen E url w of
                 (Inl e, w1) \<Rightarrow> (Inl e, w1)
               | (Inr response, w1) \<Rightarrow>
                   (case response of
                      Inl e \<Rightarrow> (Inr None, py_print (Failed_to_download url e) w1)
                    | Inr zipcontent \<Rightarrow>
                        (case extractall E zipcontent directory w1 of
                           (Inl e, w2) \<Rightarrow> (Inr None, py_print (Failed_to_extract url e) w2)
                         | (Inr u, w2) \<Rightarrow>
                             (case open_rb w2 (directory @ lit ''/ukenglish.txt'') of
                                Inl e \<Rightarrow> (Inl e, w2)
                              | Inr data \<Rightarrow>
                                  (Inr (Some (uk_filter I [] (str_split_on 10 (decode_cp850 E data)))),
                                   w2))))))"

text \<open>\<open>all_words = list(set(shakespearean_words + uk_word_list))\<close>\<close>

definition all_words :: "interp \<Rightarrow> str list \<Rightarrow> str list \<Rightarrow> str list" where
  "all_words I shakespearean_words uk_word_list =
     list_set I (shakespearean_words @ uk_word_list)"

section \<open>Notions of the specification and example inputs\<close>

text \<open>A marker is missing from a text when it occurs at no offset of the text.\<close>

definition missing :: "str \<Rightarrow> str \<Rightarrow> bool" where
  "missing text tok = (filter (occurs_at text tok) [0..int (length text)] = [])"

text \<open>A word is lowercase when \<open>word == word.lower()\<close>, the test of the notebook.\<close>

definition alpha_lower :: "interp \<Rightarrow> str \<Rightarrow> bool" where
  "alpha_lower I word = (str_isalpha I word \<and> str_lower I word = word)"

definition latin1 :: "str \<Rightarrow> bool" where
  "latin1 s = list_all (\<lambda>c. c < 256) s"

text \<open>
  A fact of the Unicode database about the code points that the model leaves to the
  interpreter: the lowercase of an alphabetic code point is one alphabetic code point,
  which is its own lowercase and is neither U+0130 nor a capital sigma.
\<close>

definition lower_keeps_letters :: "interp \<Rightarrow> bool" where
  "lower_keeps_letters I =
     (\<forall>c. 256 \<le> c \<and> c \<noteq> 304 \<and> c \<noteq> 931 \<and> c \<noteq> 962 \<and> c \<noteq> 963 \<and> alphabetic I c \<longrightarrow>
        (\<exists>c'. to_lower I c = [c'] \<and> c' \<noteq> 304 \<and> c' \<noteq> 931
              \<and> isalpha_cp I c' \<and> lower_cp I c' = [c']))"

text \<open>
  Example inputs. An interpreter with no letter above U+00FF besides the ones written
  out, which lists a set in the order of first occurrence; an environment without network,
  whose codecs map a byte to the code point of the same number (as the real ones do on
  ASCII); the \<open>data\<close> directory, empty and holding the cached files; and a working
  directory holding a file.
\<close>

definition basic :: interp where
  "basic =
     \<lparr>alphabetic = (\<lambda>c. False),
      to_lower = (\<lambda>c. [c]),
      final_sigma = (\<lambda>s i. False),
      set_order = (\<lambda>xs x. 0)\<rparr>"

definition offline :: env where
  "offline =
     \<lparr>net = (\<lambda>url. Unreachable URLError),
      unzip = (\<lambda>b. ([], Some BadZipFile)),
      mkdir_error = (\<lambda>d. None),
      text_decode = (\<lambda>b. Inr (map of_char b)),
      text_encode = (\<lambda>s. Inr (map char_of s)),
      cp850 = of_char\<rparr>"

definition empty_data :: world where
  "empty_data = \<lparr>files = Map.empty, dirs = {lit ''data''}, fetched = [], printed = []\<rparr>"

definition cached_data :: world where
  "cached_data =
     \<lparr>files = [lit ''data/raw.txt'' \<mapsto> ''raw text'',
               lit ''data/complete_shakespeare.txt'' \<mapsto> ''To be'',
               lit ''data/ukenglish.txt'' \<mapsto> ''ab'' @ [CHR 0x0A] @ ''Cd'' @ [CHR 0x0A] @ ''e2''],
      dirs = {lit ''data''}, fetched = [], printed = []\<rparr>"

definition cached_here :: world where
  "cached_here =
     \<lparr>files = [lit ''raw.txt'' \<mapsto> ''raw text''], dirs = {}, fetched = [], printed = []\<rparr>"

section \<open>Properties of the anagram index\<close>

lemma anagram_add_apply:
  "anagram_add I d word k =
     (if k = word_sorted I word
      then Some ((case d k of None \<Rightarrow> [] | Some l \<Rightarrow> l) @ [word])
      else d k)"
  by (simp add: anagram_add_def split: option.splits)

lemma get_anagrams_loop_apply:
  "get_anagrams_loop I d words k =
     (if sharing I words k = [] then d k
      else Some ((case d k of None \<Rightarrow> [] | Some l \<Rightarrow> l) @ sharing I words k))"
proof (induction words arbitrary: d)
  case Nil
  show ?case by (simp add: sharing_def)
next
  case (Cons w ws)
  show ?case
    by (simp add: Cons.IH anagram_add_apply sharing_def)
qed

lemma get_anagrams_apply:
  "get_anagrams I words k
     = (if sharing I words k = [] then None else Some (sharing I words k))"
  by (simp add: get_anagrams_def get_anagrams_loop_apply)

lemma get_anagrams_from_word_index:
  "get_anagrams_from_word I (get_anagrams I words) word
     = Inr (sharing I words (word_sorted I word))"
  by (simp add: get_anagrams_from_word_def dict_getitem_def get_anagrams_apply)

text \<open>
  The lookup never raises: it returns the list stored under the key that the code
  computes for the query, and the empty list when nothing is stored under it.
\<close>

lemma get_anagrams_from_word_total:
  "get_anagrams_from_word I d word
     = Inr (case d (word_sorted I word) of Some l \<Rightarrow> l | None \<Rightarrow> [])"
  by (simp add: get_anagrams_from_word_def dict_getitem_def split: option.splits)

lemmas key_eval =
  word_sorted_def signature_def sorted_str_def str_lower_def lower_at_def lower_cp_def lit_def

text \<open>
  C1: for every word \<open>W\<close> of the collection given to \<open>get_anagrams\<close>, the lookup of
  \<open>W\<close> in the resulting index with \<open>get_anagrams_from_word\<close> returns a list, and
  \<open>W\<close> is in that list.
\<close>

theorem C1_lookup_contains_word:
  assumes "W \<in> set words"
  shows "\<exists>l. get_anagrams_from_word I (get_anagrams I words) W = Inr l \<and> W \<in> set l"
  using assms by (simp add: get_anagrams_from_word_index sharing_def)

theorem C1_lookup_contains_word_witness:
  "lit ''silent'' \<in> set [lit ''listen'', lit ''silent'', lit ''tinsel'']
   \<and> (\<exists>l. get_anagrams_from_word basic
             (get_anagrams basic [lit ''listen'', lit ''silent'', lit ''tinsel''])
             (lit ''silent'') = Inr l
          \<and> lit ''silent'' \<in> set l)"
  using C1_lookup_contains_word
    [of "lit ''silent''" "[lit ''listen'', lit ''silent'', lit ''tinsel'']" basic]
  by simp

text \<open>
  C2 (evaluation of the code): the signature of the word \<open>Ba\<close> is \<open>ab\<close>, and
  \<open>get_anagrams\<close> stores the word under \<open>ba\<close>, the lowercase of the sorted word; nothing
  is stored under the signature.
\<close>

theorem C2_word_not_under_its_signature:
  "signature I (lit ''Ba'') = lit ''ab''
   \<and> get_anagrams I [lit ''Ba''] (lit ''ab'') = None
   \<and> get_anagrams I [lit ''Ba''] (lit ''ba'') = Some [lit ''Ba'']"
  by (simp add: get_anagrams_def anagram_add_def key_eval)

text \<open>
  C3 (evaluation of the code): the key is lowercased after sorting, so for the word
  \<open>Ba\<close> the key is \<open>ba\<close>, while for its lowercase \<open>ba\<close> the key is \<open>ab\<close>; in the
  index of the one word \<open>ab\<close> the lookup of \<open>Ba\<close> returns the empty list and the lookup
  of \<open>ba\<close> returns \<open>ab\<close>.
\<close>

theorem C3_key_lowercased_after_sorting:
  "word_sorted I (lit ''Ba'') = lit ''ba''
   \<and> word_sorted I (str_lower I (lit ''Ba'')) = lit ''ab''
   \<and> get_anagrams_from_word I (get_anagrams I [lit ''ab'']) (lit ''Ba'') = Inr []
   \<and> get_anagrams_from_word I (get_anagrams I [lit ''ab'']) (str_lower I (lit ''Ba''))
       = Inr [lit ''ab'']"
  by (simp add: get_anagrams_from_word_def dict_getitem_def get_anagrams_def anagram_add_def
      key_eval)

text \<open>
  C5 (evaluation of the code): the query \<open>Listen\<close> has the signature of the entries
  \<open>listen\<close> and \<open>silent\<close>, and its lookup in their index returns the empty list.
\<close>

theorem C5_mixed_case_query_finds_nothing:
  "signature I (lit ''Listen'') = signature I (lit ''listen'')
   \<and> signature I (lit ''Listen'') = signature I (lit ''silent'')
   \<and> get_anagrams_from_word I (get_anagrams I [lit ''listen'', lit ''silent''])
        (lit ''Listen'') = Inr []"
  by (simp add: get_anagrams_from_word_def dict_getitem_def get_anagrams_def anagram_add_def
      key_eval)

section \<open>Properties of the substring search\<close>

lemma take_eq_length: "take (length sub) xs = sub \<Longrightarrow> length sub \<le> length xs"
  by (drule arg_cong [where f = length]) simp

lemma find_scan_None:
  "find_scan sub cs i = None \<Longrightarrow> k \<le> length cs \<Longrightarrow> take (length sub) (drop k cs) \<noteq> sub"
proof (induction cs arbitrary: i k)
  case Nil
  then show ?case by (auto split: if_splits)
next
  case (Cons c cs)
  show ?case
  proof (cases k)
    case 0
    with Cons.prems show ?thesis by (auto split: if_splits)
  next
    case (Suc k')
    from Cons.prems have "find_scan sub cs (Suc i) = None" by (auto split: if_splits)
    moreover from Cons.prems Suc have "k' \<le> length cs" by simp
    ultimately have "take (length sub) (drop k' cs) \<noteq> sub" by (rule Cons.IH)
    with Suc show ?thesis by simp
  qed
qed

lemma find_scan_Some:
  "find_scan sub cs i = Some j \<Longrightarrow>
     i \<le> j \<and> j - i \<le> length cs \<and> take (length sub) (drop (j - i) cs) = sub
     \<and> (\<forall>k < j - i. take (length sub) (drop k cs) \<noteq> sub)"
proof (induction cs arbitrary: i)
  case Nil
  then show ?case by (auto split: if_splits)
next
  case (Cons c cs)
  show ?case
  proof (cases "take (length sub) (c # cs) = sub")
    case True
    with Cons.prems have "j = i" by simp
    with True show ?thesis by simp
  next
    case False
    with Cons.prems have *: "find_scan sub cs (Suc i) = Some j" by simp
    note ih = Cons.IH [OF *]
    from ih have ij: "Suc i \<le> j" by simp
    then have e: "j - i = Suc (j - Suc i)" by simp
    have "\<forall>k < j - i. take (length sub) (drop k (c # cs)) \<noteq> sub"
    proof (intro allI impI)
      fix k assume k: "k < j - i"
      show "take (length sub) (drop k (c # cs)) \<noteq> sub"
      proof (cases k)
        case 0
        with False show ?thesis by simp
      next
        case (Suc k')
        with k e have "k' < j - Suc i" by simp
        with ih have "take (length sub) (drop k' cs) \<noteq> sub" by blast
        with Suc show ?thesis by simp
      qed
    qed
    with ih e ij show ?thesis by simp
  qed
qed

lemma str_find_none:
  assumes "0 \<le> s" and "str_find text sub s = - 1" and "s \<le> j"
  shows "\<not> occurs_at text sub j"
proof
  assume occ: "occurs_at text sub j"
  then have j: "0 \<le> j" "j \<le> int (length text)"
    and tk: "take (length sub) (drop (nat j) text) = sub"
    by (auto simp: occurs_at_def)
  from assms j have sn: "s \<le> int (length text)" by simp
  with assms have "find_scan sub (drop (nat s) text) (nat s) = None"
    by (auto simp: str_find_def Let_def split: option.splits if_splits)
  moreover have "nat j - nat s \<le> length (drop (nat s) text)" using j assms by auto
  ultimately have "take (length sub) (drop (nat j - nat s) (drop (nat s) text)) \<noteq> sub"
    by (rule find_scan_None)
  moreover have "nat j - nat s + nat s = nat j" using assms by auto
  ultimately show False using tk by simp
qed

lemma str_find_some:
  assumes "0 \<le> s" and "str_find text sub s = r" and "r \<noteq> - 1"
  shows "s \<le> r \<and> occurs_at text sub r \<and> (\<forall>j. s \<le> j \<and> j < r \<longrightarrow> \<not> occurs_at text sub j)"
proof -
  from assms have sn: "s \<le> int (length text)"
    by (auto simp: str_find_def Let_def split: if_splits)
  with assms obtain q where q: "find_scan sub (drop (nat s) text) (nat s) = Some q" and r: "r = int q"
    by (auto simp: str_find_def Let_def split: option.splits if_splits)
  note fs = find_scan_Some [OF q]
  from fs have sq: "nat s \<le> q" by simp
  from fs have len: "q - nat s \<le> length text - nat s" by simp
  have qe: "q - nat s + nat s = q" using sq by simp
  from fs have "take (length sub) (drop (q - nat s) (drop (nat s) text)) = sub" by blast
  then have tk': "take (length sub) (drop q text) = sub" by (simp add: qe)
  from sn assms(1) have "nat s \<le> length text" by simp
  with len sq have ql: "q \<le> length text" by linarith
  from take_eq_length [OF tk'] ql have "q + length sub \<le> length text" by simp
  with tk' r have occ: "occurs_at text sub r" by (simp add: occurs_at_def)
  have "\<not> occurs_at text sub j" if "s \<le> j" "j < r" for j
  proof
    assume "occurs_at text sub j"
    then have tj: "take (length sub) (drop (nat j) text) = sub" by (simp add: occurs_at_def)
    from that assms(1) r have "nat j - nat s < q - nat s" by linarith
    with fs have "take (length sub) (drop (nat j - nat s) (drop (nat s) text)) \<noteq> sub" by blast
    moreover have "nat j - nat s + nat s = nat j" using that assms(1) by simp
    ultimately show False using tj by simp
  qed
  with occ sq r assms(1) show ?thesis by auto
qed

lemma filter_upto_none:
  "(\<forall>j. s \<le> j \<longrightarrow> \<not> P j) \<Longrightarrow> filter P [s..n] = []"
  by (auto simp: filter_empty_conv)

lemma filter_upto_skip:
  "s \<le> r \<Longrightarrow> (\<forall>j. s \<le> j \<and> j < r \<longrightarrow> \<not> P j) \<Longrightarrow> filter P [s..n] = filter P [r..n]"
proof (induction "nat (r - s)" arbitrary: s)
  case 0
  then show ?case by simp
next
  case (Suc k)
  then have sr: "s < r" by linarith
  from Suc.hyps(2) have k: "k = nat (r - (s + 1))" by linarith
  have ih: "filter P [s + 1..n] = filter P [r..n]"
    using Suc.hyps(1) [OF k] sr Suc.prems(2) by simp
  show ?case
  proof (cases "s \<le> n")
    case True
    then have "[s..n] = s # [s + 1..n]" by (simp add: upto_rec1)
    moreover from Suc.prems(2) sr have "\<not> P s" by simp
    ultimately show ?thesis using ih by simp
  next
    case False
    with sr show ?thesis by simp
  qed
qed

lemma find_quotes_loop_eq:
  "0 \<le> s \<Longrightarrow>
   find_quotes_loop text keyword (str_find text keyword s) indices =
     Some (indices @ filter (occurs_at text keyword) [s..int (length text)])"
proof (induction "nat (int (length text) + 1 - s)" arbitrary: s indices rule: less_induct)
  case less
  let ?n = "int (length text)"
  let ?r = "str_find text keyword s"
  show ?case
  proof (cases "?r = - 1")
    case True
    have "filter (occurs_at text keyword) [s..?n] = []"
      using str_find_none [OF less.prems True] by (simp add: filter_upto_none)
    with True show ?thesis by (simp add: find_quotes_loop.simps)
  next
    case False
    from str_find_some [OF less.prems refl False]
    have sr: "s \<le> ?r" and occ: "occurs_at text keyword ?r"
      and first: "\<forall>j. s \<le> j \<and> j < ?r \<longrightarrow> \<not> occurs_at text keyword j"
      by blast+
    from occ have rn: "?r \<le> ?n" by (simp add: occurs_at_def)
    have "filter (occurs_at text keyword) [s..?n] = filter (occurs_at text keyword) [?r..?n]"
      using sr first by (rule filter_upto_skip)
    also have "[?r..?n] = ?r # [?r + 1..?n]" using rn by (simp add: upto_rec1)
    finally have fl: "filter (occurs_at text keyword) [s..?n]
        = ?r # filter (occurs_at text keyword) [?r + 1..?n]"
      using occ by simp
    have m: "nat (?n + 1 - (?r + 1)) < nat (?n + 1 - s)" using sr rn by linarith
    have r0: "0 \<le> ?r + 1" using sr less.prems by linarith
    have "find_quotes_loop text keyword ?r indices
        = find_quotes_loop text keyword (str_find text keyword (?r + 1)) (indices @ [?r])"
      using False by (subst find_quotes_loop.simps) simp
    also have "\<dots> = Some ((indices @ [?r]) @ filter (occurs_at text keyword) [?r + 1..?n])"
      using m r0 by (rule less.hyps)
    finally show ?thesis using fl by simp
  qed
qed

lemma find_quotes_eq:
  "find_quotes text keyword = Some (filter (occurs_at text keyword) [0..int (length text)])"
  by (simp add: find_quotes_def find_quotes_loop_eq)

lemma sorted_filter_upto: "sorted_wrt (<) (filter P [a..b])"
  by (rule sorted_wrt_filter) (simp add: sorted_wrt_upto)

lemma set_occurrences:
  "set (filter (occurs_at text keyword) [0..int (length text)]) = {i. occurs_at text keyword i}"
  by (auto simp: occurs_at_def)

text \<open>
  C4: for every text and every non-empty keyword, \<open>find_quotes\<close> returns the offsets at
  which the keyword occurs in the text and no other, each of them once, in strictly
  ascending order, overlapping occurrences included: the result is the list of the
  offsets \<open>0 .. len(text)\<close> at which the keyword occurs. It is empty when the keyword does
  not occur, and it has as many entries as there are occurrences.
\<close>

theorem C4_find_quotes_offsets:
  assumes "keyword \<noteq> []"
  shows "\<exists>indices. find_quotes text keyword = Some indices
           \<and> indices = filter (occurs_at text keyword) [0..int (length text)]
           \<and> set indices = {i. occurs_at text keyword i}
           \<and> sorted_wrt (<) indices
           \<and> ((\<forall>i. \<not> occurs_at text keyword i) \<longrightarrow> indices = [])
           \<and> length indices = card {i. occurs_at text keyword i}"
proof -
  let ?is = "filter (occurs_at text keyword) [0..int (length text)]"
  have s: "set ?is = {i. occurs_at text keyword i}" by (rule set_occurrences)
  have o: "sorted_wrt (<) ?is" by (rule sorted_filter_upto)
  have "distinct ?is" by simp
  then have "card (set ?is) = length ?is" by (rule distinct_card)
  with s have c: "length ?is = card {i. occurs_at text keyword i}" by simp
  have e: "(\<forall>i. \<not> occurs_at text keyword i) \<longrightarrow> ?is = []" by (simp add: filter_empty_conv)
  from s o c e show ?thesis by (simp add: find_quotes_eq)
qed

theorem C4_find_quotes_offsets_witness:
  "lit ''aba'' \<noteq> [] \<and> find_quotes (lit ''abababa'') (lit ''aba'') = Some [0, 2, 4]"
proof -
  have h: "lit ''aba'' \<noteq> []" by (simp add: lit_def)
  from C4_find_quotes_offsets [OF h, of "lit ''abababa''"]
  have "find_quotes (lit ''abababa'') (lit ''aba'')
      = Some (filter (occurs_at (lit ''abababa'') (lit ''aba'')) [0..int (length (lit ''abababa''))])"
    by blast
  also have "filter (occurs_at (lit ''abababa'') (lit ''aba'')) [0..int (length (lit ''abababa''))]
      = [0, 2, 4]"
    by (simp add: lit_def occurs_at_def upto_rec1)
  finally show ?thesis using h by simp
qed

text \<open>
  C10: \<open>find_quotes\<close> returns for every text and every keyword, the empty keyword
  included; the indices of the result are strictly ascending; and for the empty keyword
  the result is every offset from \<open>0\<close> to the length of the text.
\<close>

theorem C10_find_quotes_terminates:
  "\<exists>indices. find_quotes text keyword = Some indices
     \<and> sorted_wrt (<) indices
     \<and> (keyword = [] \<longrightarrow> indices = [0..int (length text)])"
proof -
  have "filter (occurs_at text []) [0..int (length text)] = [0..int (length text)]"
    by (simp add: occurs_at_def)
  then show ?thesis by (auto simp: find_quotes_eq sorted_filter_upto)
qed

theorem C10_find_quotes_terminates_witness:
  "find_quotes (lit ''ab'') [] = Some [0, 1, 2]"
proof -
  from C10_find_quotes_terminates [of "lit ''ab''" "[]"]
  have "find_quotes (lit ''ab'') [] = Some [0..int (length (lit ''ab''))]" by auto
  then show ?thesis by (simp add: lit_def upto_rec1)
qed

section \<open>Properties of the acquisition functions\<close>

lemma read_and_return_world: "snd (read_and_return E p w) = w"
  by (simp add: read_and_return_def split: sum.splits)

lemma read_and_return_cached:
  "file_at w p = Some b \<Longrightarrow>
   fst (read_and_return E p (py_print m w))
     = (case text_decode E b of Inl e \<Rightarrow> Inl e | Inr text \<Rightarrow> Inr (Some text))"
  by (simp add: read_and_return_def read_text_def open_rb_def py_print_def file_at_def
      split: sum.splits if_splits)

lemma read_and_return_eq:
  assumes "file_at w p = Some b"
  shows "read_and_return E p (py_print m w)
     = ((case text_decode E b of Inl e \<Rightarrow> Inl e | Inr text \<Rightarrow> Inr (Some text)), py_print m w)"
proof -
  have "read_and_return E p (py_print m w)
      = (fst (read_and_return E p (py_print m w)), snd (read_and_return E p (py_print m w)))"
    by simp
  then show ?thesis
    by (simp only: read_and_return_cached [OF assms] read_and_return_world)
qed

lemma file_at_exists: "file_at w p = Some b \<Longrightarrow> path_exists w p"
  by (simp add: path_exists_def)

lemma file_at_dirs: "file_at (w\<lparr>dirs := D\<rparr>) p = file_at w p"
  by (simp add: file_at_def)

text \<open>
  \<open>download_text\<close> with the target file in place: when the destination directory
  exists the cache branch is taken at once; when it does not, \<open>os.makedirs\<close> runs first,
  and either raises or creates the directory.
\<close>

lemma download_text_cached:
  assumes "file_at w (path_join destination_directory filename) = Some b"
    and "path_exists w destination_directory"
  shows "download_text E url destination_directory filename w
     = ((case text_decode E b of Inl e \<Rightarrow> Inl e | Inr text \<Rightarrow> Inr (Some text)),
        py_print (Reading_from_cached_file (path_join destination_directory filename)) w)"
  using assms file_at_exists [OF assms(1)]
  by (simp add: download_text_def Let_def read_and_return_eq)

lemma download_text_cached_created:
  assumes "file_at w (path_join destination_directory filename) = Some b"
    and "\<not> path_exists w destination_directory"
    and "destination_directory \<noteq> []" and "mkdir_error E destination_directory = None"
  shows "download_text E url destination_directory filename w
     = ((case text_decode E b of Inl e \<Rightarrow> Inl e | Inr text \<Rightarrow> Inr (Some text)),
        py_print (Reading_from_cached_file (path_join destination_directory filename))
          (w\<lparr>dirs := dirs w \<union> set (ancestors destination_directory)
                          \<union> {destination_directory}\<rparr>))"
proof -
  let ?w1 = "w\<lparr>dirs := dirs w \<union> set (ancestors destination_directory) \<union> {destination_directory}\<rparr>"
  have f: "file_at ?w1 (path_join destination_directory filename) = Some b"
    using assms(1) by (simp only: file_at_dirs)
  from assms(2-4) have "download_text E url destination_directory filename w
      = read_and_return E (path_join destination_directory filename)
          (py_print (Reading_from_cached_file (path_join destination_directory filename)) ?w1)"
    using file_at_exists [OF f] by (simp add: download_text_def makedirs_def Let_def)
  then show ?thesis by (simp only: read_and_return_eq [OF f])
qed

lemma download_text_cached_refused:
  assumes "\<not> path_exists w destination_directory"
    and "destination_directory = [] \<or> mkdir_error E destination_directory \<noteq> None"
  shows "\<exists>e. download_text E url destination_directory filename w = (Inl e, w)"
  using assms by (auto simp: download_text_def makedirs_def)

lemma download_text_no_fetch:
  assumes "file_at w (path_join destination_directory filename) = Some b"
  shows "fetched (snd (download_text E url destination_directory filename w)) = fetched w
     \<and> files (snd (download_text E url destination_directory filename w)) = files w"
proof (cases "path_exists w destination_directory")
  case True
  show ?thesis by (simp add: download_text_cached [OF assms True] py_print_def)
next
  case False
  show ?thesis
  proof (cases "destination_directory = [] \<or> mkdir_error E destination_directory \<noteq> None")
    case True
    from download_text_cached_refused [OF False True, of url filename]
    show ?thesis by auto
  next
    case False
    then have "destination_directory \<noteq> []" "mkdir_error E destination_directory = None"
      by simp_all
    from download_text_cached_created [OF assms \<open>\<not> path_exists w destination_directory\<close> this]
    show ?thesis by (simp add: py_print_def)
  qed
qed

lemma filter_text_cached:
  assumes "file_at w (path_join destination_directory filename) = Some b"
  shows "filter_text E text destination_directory filename w
     = ((case text_decode E b of Inl e \<Rightarrow> Inl e | Inr text \<Rightarrow> Inr (Some text)),
        py_print (Reading_from_cached_file (path_join destination_directory filename)) w)"
  using file_at_exists [OF assms]
  by (simp add: filter_text_def Let_def read_and_return_eq [OF assms])

lemma get_uk_english_word_list_cached:
  assumes "file_at w (path_join directory (lit ''ukenglish.txt'')) = Some b"
  shows "get_uk_english_word_list I E directory w
     = (Inr (Some (uk_filter I [] (str_split_on 10 (decode_cp850 E b)))),
        py_print (Reading_from_cached_file (path_join directory (lit ''ukenglish.txt''))) w)"
proof -
  have "file_at (py_print (Reading_from_cached_file (path_join directory (lit ''ukenglish.txt''))) w)
      (path_join directory (lit ''ukenglish.txt'')) = Some b"
    using assms by (simp add: file_at_def py_print_def split: if_splits)
  then show ?thesis
    using file_at_exists [OF assms]
    by (simp add: get_uk_english_word_list_def Let_def open_rb_def)
qed

text \<open>
  C9 (as amended): if the target file exists, no acquisition function sends a request to
  the network or changes a file. \<open>filter_text\<close> and \<open>get_uk_english_word_list\<close> return
  what reading the file gives (the decoded text, or the filtered words of the decoded
  list) and print that they read the cached file; so does \<open>download_text\<close> when the
  destination directory exists or \<open>os.makedirs\<close> creates it.
\<close>

theorem C9_cached_file_no_fetch_no_overwrite:
  "(file_at w (path_join destination_directory filename) = Some b \<longrightarrow>
      fetched (snd (download_text E url destination_directory filename w)) = fetched w
      \<and> files (snd (download_text E url destination_directory filename w)) = files w)
   \<and> (file_at w (path_join destination_directory filename) = Some b
       \<and> (path_exists w destination_directory
           \<or> (destination_directory \<noteq> [] \<and> mkdir_error E destination_directory = None)) \<longrightarrow>
      (\<exists>w'. download_text E url destination_directory filename w
            = ((case text_decode E b of Inl e \<Rightarrow> Inl e | Inr text \<Rightarrow> Inr (Some text)), w')
          \<and> printed w'
              = printed w @ [Reading_from_cached_file (path_join destination_directory filename)]))
   \<and> (file_at w (path_join destination_directory filename) = Some b \<longrightarrow>
      (\<exists>w'. filter_text E text destination_directory filename w
            = ((case text_decode E b of Inl e \<Rightarrow> Inl e | Inr text \<Rightarrow> Inr (Some text)), w')
          \<and> fetched w' = fetched w \<and> files w' = files w
          \<and> printed w'
              = printed w @ [Reading_from_cached_file (path_join destination_directory filename)]))
   \<and> (file_at w (path_join directory (lit ''ukenglish.txt'')) = Some b \<longrightarrow>
      (\<exists>w'. get_uk_english_word_list I E directory w
            = (Inr (Some (uk_filter I [] (str_split_on 10 (decode_cp850 E b)))), w')
          \<and> fetched w' = fetched w \<and> files w' = files w
          \<and> printed w'
              = printed w @ [Reading_from_cached_file (path_join directory (lit ''ukenglish.txt''))]))"
proof (intro conjI impI)
  assume a: "file_at w (path_join destination_directory filename) = Some b"
  from download_text_no_fetch [OF a]
  show "fetched (snd (download_text E url destination_directory filename w)) = fetched w"
    and "files (snd (download_text E url destination_directory filename w)) = files w"
    by simp_all
  show "\<exists>w'. filter_text E text destination_directory filename w
            = ((case text_decode E b of Inl e \<Rightarrow> Inl e | Inr text \<Rightarrow> Inr (Some text)), w')
          \<and> fetched w' = fetched w \<and> files w' = files w
          \<and> printed w'
              = printed w @ [Reading_from_cached_file (path_join destination_directory filename)]"
    by (simp add: filter_text_cached [OF a] py_print_def)
next
  assume a: "file_at w (path_join destination_directory filename) = Some b
       \<and> (path_exists w destination_directory
           \<or> (destination_directory \<noteq> [] \<and> mkdir_error E destination_directory = None))"
  then have f: "file_at w (path_join destination_directory filename) = Some b" by simp
  show "\<exists>w'. download_text E url destination_directory filename w
            = ((case text_decode E b of Inl e \<Rightarrow> Inl e | Inr text \<Rightarrow> Inr (Some text)), w')
          \<and> printed w'
              = printed w @ [Reading_from_cached_file (path_join destination_directory filename)]"
  proof (cases "path_exists w destination_directory")
    case True
    show ?thesis by (simp add: download_text_cached [OF f True] py_print_def)
  next
    case False
    with a have "destination_directory \<noteq> []" "mkdir_error E destination_directory = None"
      by simp_all
    from download_text_cached_created [OF f False this]
    show ?thesis by (simp add: py_print_def)
  qed
next
  assume a: "file_at w (path_join directory (lit ''ukenglish.txt'')) = Some b"
  show "\<exists>w'. get_uk_english_word_list I E directory w
            = (Inr (Some (uk_filter I [] (str_split_on 10 (decode_cp850 E b)))), w')
          \<and> fetched w' = fetched w \<and> files w' = files w
          \<and> printed w'
              = printed w @ [Reading_from_cached_file (path_join directory (lit ''ukenglish.txt''))]"
    by (simp add: get_uk_english_word_list_cached [OF a] py_print_def)
qed

lemma path_join_data:
  "path_join (lit ''data'') (lit ''raw.txt'') = lit ''data/raw.txt''"
  "path_join (lit ''data'') (lit ''complete_shakespeare.txt'') = lit ''data/complete_shakespeare.txt''"
  "path_join (lit ''data'') (lit ''ukenglish.txt'') = lit ''data/ukenglish.txt''"
  "path_join [] (lit ''raw.txt'') = lit ''raw.txt''"
  by (simp_all add: path_join_def lit_def)

lemma cached_data_files:
  "file_at cached_data (lit ''data/raw.txt'') = Some ''raw text''"
  "file_at cached_data (lit ''data/complete_shakespeare.txt'') = Some ''To be''"
  "file_at cached_data (lit ''data/ukenglish.txt'')
     = Some (''ab'' @ [CHR 0x0A] @ ''Cd'' @ [CHR 0x0A] @ ''e2'')"
  "path_exists cached_data (lit ''data'')"
  by (simp_all add: cached_data_def file_at_def path_exists_def is_dir_def lit_def)

lemma offline_decode:
  "(case text_decode offline ''raw text'' of Inl e \<Rightarrow> Inl e | Inr text \<Rightarrow> Inr (Some text))
     = Inr (Some (lit ''raw text''))"
  by (simp add: offline_def lit_def)

lemma uk_filter_example:
  "uk_filter I [] (str_split_on 10
       (decode_cp850 offline (''ab'' @ [CHR 0x0A] @ ''Cd'' @ [CHR 0x0A] @ ''e2''))) = [lit ''ab'']"
  by (simp add: decode_cp850_def offline_def str_split_on_def str_lower_def lower_at_def
      lower_cp_def str_isalpha_def isalpha_cp_def lit_def)

theorem C9_cached_file_no_fetch_no_overwrite_witness:
  "file_at cached_data (path_join (lit ''data'') (lit ''raw.txt'')) = Some ''raw text''
   \<and> path_exists cached_data (lit ''data'')
   \<and> fst (download_text offline (lit ''http://example.org/raw.txt'') (lit ''data'') (lit ''raw.txt'')
             cached_data) = Inr (Some (lit ''raw text''))
   \<and> fetched (snd (download_text offline (lit ''http://example.org/raw.txt'') (lit ''data'')
                      (lit ''raw.txt'') cached_data)) = []
   \<and> fst (filter_text offline [] (lit ''data'') (lit ''raw.txt'') cached_data)
       = Inr (Some (lit ''raw text''))
   \<and> file_at cached_data (path_join (lit ''data'') (lit ''ukenglish.txt''))
       = Some (''ab'' @ [CHR 0x0A] @ ''Cd'' @ [CHR 0x0A] @ ''e2'')
   \<and> fst (get_uk_english_word_list basic offline (lit ''data'') cached_data)
       = Inr (Some [lit ''ab''])"
proof -
  have h1: "file_at cached_data (path_join (lit ''data'') (lit ''raw.txt'')) = Some ''raw text''"
    by (simp only: path_join_data cached_data_files)
  have h2: "file_at cached_data (path_join (lit ''data'') (lit ''ukenglish.txt''))
      = Some (''ab'' @ [CHR 0x0A] @ ''Cd'' @ [CHR 0x0A] @ ''e2'')"
    by (simp only: path_join_data cached_data_files)
  note h3 = cached_data_files(4)
  note d = offline_decode
  note u = uk_filter_example [of basic]
  note t = C9_cached_file_no_fetch_no_overwrite
    [where w = cached_data and destination_directory = "lit ''data''"
       and filename = "lit ''raw.txt''" and b = "''raw text''" and E = offline
       and url = "lit ''http://example.org/raw.txt''" and ?text = "[]"]
  note t2 = C9_cached_file_no_fetch_no_overwrite
    [where w = cached_data and directory = "lit ''data''" and E = offline and I = basic
       and b = "''ab'' @ [CHR 0x0A] @ ''Cd'' @ [CHR 0x0A] @ ''e2''"]
  from t h1 h3 obtain w1 where
    "download_text offline (lit ''http://example.org/raw.txt'') (lit ''data'') (lit ''raw.txt'')
       cached_data
     = ((case text_decode offline ''raw text'' of Inl e \<Rightarrow> Inl e | Inr text \<Rightarrow> Inr (Some text)), w1)"
    by blast
  with d have a: "fst (download_text offline (lit ''http://example.org/raw.txt'') (lit ''data'')
      (lit ''raw.txt'') cached_data) = Inr (Some (lit ''raw text''))"
    by simp
  from t h1 have b: "fetched (snd (download_text offline (lit ''http://example.org/raw.txt'')
      (lit ''data'') (lit ''raw.txt'') cached_data)) = fetched cached_data"
    by blast
  from t h1 obtain w2 where
    "filter_text offline [] (lit ''data'') (lit ''raw.txt'') cached_data
     = ((case text_decode offline ''raw text'' of Inl e \<Rightarrow> Inl e | Inr text \<Rightarrow> Inr (Some text)), w2)"
    by blast
  with d have c: "fst (filter_text offline [] (lit ''data'') (lit ''raw.txt'') cached_data)
      = Inr (Some (lit ''raw text''))"
    by simp
  from t2 h2 obtain w3 where
    "get_uk_english_word_list basic offline (lit ''data'') cached_data
     = (Inr (Some (uk_filter basic [] (str_split_on 10
          (decode_cp850 offline (''ab'' @ [CHR 0x0A] @ ''Cd'' @ [CHR 0x0A] @ ''e2''))))), w3)"
    by blast
  with u have e: "fst (get_uk_english_word_list basic offline (lit ''data'') cached_data)
      = Inr (Some [lit ''ab''])"
    by simp
  have f: "fetched cached_data = []" by (simp add: cached_data_def)
  from h1 h2 h3 a b c e f show ?thesis by simp
qed

text \<open>
  C9 (counterexample): the file \<open>raw.txt\<close> exists, and it is the target of
  \<open>download_text\<close> for the empty directory name; \<open>os.makedirs\<close> is called before the
  cache test and raises, so the function leaves with \<open>FileNotFoundError\<close> and reads
  nothing.
\<close>

theorem C9_empty_directory_name_raises:
  "file_at cached_here (path_join [] (lit ''raw.txt'')) = Some ''raw text''
   \<and> download_text offline (lit ''http://example.org/raw.txt'') [] (lit ''raw.txt'') cached_here
       = (Inl FileNotFoundError, cached_here)"
  by (simp add: path_join_data)
     (simp add: download_text_def makedirs_def path_exists_def is_dir_def file_at_def
       cached_here_def lit_def)

text \<open>
  C6 (evaluation of the code): without network and without a cached word list,
  \<open>get_uk_english_word_list\<close> leaves with the error of \<open>urlopen\<close> and prints nothing,
  while \<open>download_text\<close> in the same situation prints its message and returns \<open>None\<close>.
\<close>

theorem C6_urlopen_error_propagates:
  "get_uk_english_word_list I offline (lit ''data'') empty_data
     = (Inl URLError, empty_data\<lparr>fetched := [uk_url]\<rparr>)
   \<and> download_text offline uk_url (lit ''data'') (lit ''ukenglish.zip'') empty_data
     = (Inr None,
        empty_data\<lparr>fetched := [uk_url],
                     printed := [Failed_to_download_to uk_url (lit ''data/ukenglish.zip'') URLError]\<rparr>)"
  by (simp add: get_uk_english_word_list_def download_text_def urlopen_def urlretrieve_def
      path_exists_def is_dir_def file_at_def path_join_def py_print_def offline_def
      empty_data_def lit_def Let_def)

section \<open>Properties of the text filter\<close>

lemma str_find_missing: "str_find text tok 0 = - 1 \<longleftrightarrow> missing text tok"
proof
  assume "str_find text tok 0 = - 1"
  then have "\<forall>j. 0 \<le> j \<longrightarrow> \<not> occurs_at text tok j"
    using str_find_none [of 0 "text" tok] by simp
  then show "missing text tok"
    unfolding missing_def by (rule filter_upto_none)
next
  assume m: "missing text tok"
  show "str_find text tok 0 = - 1"
  proof (rule ccontr)
    assume "str_find text tok 0 \<noteq> - 1"
    with str_find_some [of 0 "text" tok "str_find text tok 0"]
    have occ: "occurs_at text tok (str_find text tok 0)" by simp
    then have "str_find text tok 0 \<in> set [0..int (length text)]" by (simp add: occurs_at_def)
    with occ have "str_find text tok 0 \<in> set (filter (occurs_at text tok) [0..int (length text)])"
      by simp
    with m show False by (simp add: missing_def)
  qed
qed

lemma skip_newlines_returns:
  "0 \<le> s \<Longrightarrow> s \<le> j \<Longrightarrow> j < int (length text) \<Longrightarrow> text ! nat j \<noteq> 10
   \<Longrightarrow> \<exists>s'. skip_newlines text s = Inr s'"
proof (induction "nat (j - s)" arbitrary: s)
  case 0
  then have "s = j" by simp
  with 0 have "str_getitem text s = Inr (text ! nat j)" by (simp add: str_getitem_def)
  with 0 show ?case by (subst skip_newlines.simps) simp
next
  case (Suc k)
  then have lt: "s < j" by linarith
  with Suc.prems have g: "str_getitem text s = Inr (text ! nat s)" by (simp add: str_getitem_def)
  show ?case
  proof (cases "text ! nat s = 10")
    case False
    with g show ?thesis by (subst skip_newlines.simps) simp
  next
    case True
    from Suc.hyps(2) have "k = nat (j - (s + 1))" by linarith
    moreover from Suc.prems lt have "0 \<le> s + 1" "s + 1 \<le> j" by simp_all
    ultimately have "\<exists>s'. skip_newlines text (s + 1) = Inr s'"
      using Suc.prems(3,4) by (rule Suc.hyps(1))
    with g True show ?thesis by (subst skip_newlines.simps) simp
  qed
qed

lemma filter_text_missing_marker:
  assumes "\<not> path_exists w (path_join destination_directory filename)"
    and "missing text start_tok
         \<or> (missing text end_tok
            \<and> (\<exists>j. str_find text start_tok 0 + int (length start_tok) \<le> j
                    \<and> j < int (length text) \<and> text ! nat j \<noteq> 10))"
  shows "filter_text E text destination_directory filename w
           = (Inr None, py_print Unexpected_text_format w)"
proof (cases "missing text start_tok")
  case True
  then have "str_find text start_tok 0 = - 1" by (simp add: str_find_missing)
  with assms(1) show ?thesis by (simp add: filter_text_def Let_def)
next
  case False
  then have s: "str_find text start_tok 0 \<noteq> - 1" by (simp add: str_find_missing)
  with str_find_some [of 0 "text" start_tok "str_find text start_tok 0"]
  have s0: "0 \<le> str_find text start_tok 0" by simp
  from False assms(2) have e: "str_find text end_tok 0 = - 1" by (simp add: str_find_missing)
  from False assms(2) obtain j where
    j: "str_find text start_tok 0 + int (length start_tok) \<le> j" "j < int (length text)"
       "text ! nat j \<noteq> 10"
    by blast
  from s0 have "0 \<le> str_find text start_tok 0 + int (length start_tok)" by simp
  from skip_newlines_returns [OF this j]
  obtain s' where "skip_newlines text (str_find text start_tok 0 + int (length start_tok)) = Inr s'"
    by blast
  with assms(1) s e show ?thesis by (simp add: filter_text_def Let_def)
qed

lemma start_tok_missing_example: "missing (lit ''no marker'') start_tok"
  by (simp add: missing_def occurs_at_def start_tok_def lit_def upto_rec1)

lemma end_tok_missing_example: "missing (lit ''WILLIAM SHAKESPEARE ***x'') end_tok"
  by (simp add: missing_def occurs_at_def end_tok_def lit_def upto_rec1)

lemma start_tok_found_example: "str_find (lit ''WILLIAM SHAKESPEARE ***x'') start_tok 0 = 0"
  by (simp add: str_find_def start_tok_def lit_def)

lemma empty_data_no_file:
  "\<not> path_exists empty_data (path_join (lit ''data'') (lit ''complete_shakespeare.txt''))"
  by (simp add: path_join_data)
     (simp add: path_exists_def is_dir_def file_at_def empty_data_def lit_def)

text \<open>
  C7 (as amended): when no file exists at the target path, \<open>filter_text\<close> prints
  \<open>Unexpected text format\<close> and returns \<open>None\<close>, writing nothing, if the start marker is
  missing from the text; and so it does if the end marker is missing while the start
  marker is there and some character other than a newline comes after it. When the target
  file exists, \<open>filter_text\<close> returns the content of that file and does not look at the
  text.
\<close>

theorem C7_missing_marker_reported:
  "(\<not> path_exists w (path_join destination_directory filename)
      \<and> (missing text start_tok
          \<or> (missing text end_tok
              \<and> (\<exists>j. str_find text start_tok 0 + int (length start_tok) \<le> j
                      \<and> j < int (length text) \<and> text ! nat j \<noteq> 10)))
      \<longrightarrow> filter_text E text destination_directory filename w
            = (Inr None, py_print Unexpected_text_format w))
   \<and> (file_at w (path_join destination_directory filename) = Some b
      \<longrightarrow> filter_text E text destination_directory filename w
            = ((case text_decode E b of Inl e \<Rightarrow> Inl e | Inr cached \<Rightarrow> Inr (Some cached)),
               py_print (Reading_from_cached_file (path_join destination_directory filename)) w))"
  using filter_text_missing_marker [of w destination_directory filename "text" E]
    filter_text_cached [of w destination_directory filename b E "text"]
  by blast

theorem C7_missing_marker_reported_witness:
  "\<not> path_exists empty_data (path_join (lit ''data'') (lit ''complete_shakespeare.txt''))
   \<and> missing (lit ''no marker'') start_tok
   \<and> filter_text offline (lit ''no marker'') (lit ''data'') (lit ''complete_shakespeare.txt'')
        empty_data
       = (Inr None, py_print Unexpected_text_format empty_data)
   \<and> missing (lit ''WILLIAM SHAKESPEARE ***x'') end_tok
   \<and> str_find (lit ''WILLIAM SHAKESPEARE ***x'') start_tok 0 + int (length start_tok) \<le> 23
   \<and> (23 :: int) < int (length (lit ''WILLIAM SHAKESPEARE ***x''))
   \<and> lit ''WILLIAM SHAKESPEARE ***x'' ! nat 23 \<noteq> 10
   \<and> filter_text offline (lit ''WILLIAM SHAKESPEARE ***x'') (lit ''data'')
        (lit ''complete_shakespeare.txt'') empty_data
       = (Inr None, py_print Unexpected_text_format empty_data)
   \<and> file_at cached_data (path_join (lit ''data'') (lit ''raw.txt'')) = Some ''raw text''
   \<and> fst (filter_text offline [] (lit ''data'') (lit ''raw.txt'') cached_data)
       = Inr (Some (lit ''raw text''))"
proof -
  let ?t = "lit ''WILLIAM SHAKESPEARE ***x''"
  have p: "str_find ?t start_tok 0 + int (length start_tok) \<le> 23"
    by (simp add: start_tok_found_example) (simp add: start_tok_def lit_def)
  have l: "(23 :: int) < int (length ?t)" by (simp add: lit_def)
  have c: "?t ! nat 23 \<noteq> 10" by (simp add: lit_def)
  have a: "filter_text offline (lit ''no marker'') (lit ''data'') (lit ''complete_shakespeare.txt'')
        empty_data = (Inr None, py_print Unexpected_text_format empty_data)"
    using C7_missing_marker_reported
      [of empty_data "lit ''data''" "lit ''complete_shakespeare.txt''" "lit ''no marker''" offline]
      empty_data_no_file start_tok_missing_example by blast
  have b: "filter_text offline ?t (lit ''data'') (lit ''complete_shakespeare.txt'') empty_data
      = (Inr None, py_print Unexpected_text_format empty_data)"
    using C7_missing_marker_reported
      [of empty_data "lit ''data''" "lit ''complete_shakespeare.txt''" ?t offline]
      empty_data_no_file end_tok_missing_example p l c by blast
  have f: "file_at cached_data (path_join (lit ''data'') (lit ''raw.txt'')) = Some ''raw text''"
    by (simp only: path_join_data cached_data_files)
  have d: "(case text_decode offline ''raw text'' of Inl e \<Rightarrow> Inl e | Inr cached \<Rightarrow> Inr (Some cached))
      = Inr (Some (lit ''raw text''))"
    by (simp add: offline_def lit_def)
  have "filter_text offline [] (lit ''data'') (lit ''raw.txt'') cached_data
      = ((case text_decode offline ''raw text'' of Inl e \<Rightarrow> Inl e | Inr cached \<Rightarrow> Inr (Some cached)),
         py_print (Reading_from_cached_file (path_join (lit ''data'') (lit ''raw.txt''))) cached_data)"
    using C7_missing_marker_reported
      [of cached_data "lit ''data''" "lit ''raw.txt''" "[]" offline "''raw text''"] f
    by blast
  with d have g: "fst (filter_text offline [] (lit ''data'') (lit ''raw.txt'') cached_data)
      = Inr (Some (lit ''raw text''))"
    by simp
  from empty_data_no_file start_tok_missing_example end_tok_missing_example a b p l c f g
  show ?thesis by blast
qed

text \<open>
  A text that ends with the start marker: the first loop reads past the end of the text
  and \<open>filter_text\<close> leaves with \<open>IndexError\<close>.
\<close>

lemma filter_text_index_error_example:
  "filter_text offline start_tok (lit ''data'') (lit ''complete_shakespeare.txt'') empty_data
     = (Inl IndexError, empty_data)"
proof -
  have "str_find start_tok start_tok 0 = 0" by (simp add: str_find_def start_tok_def lit_def)
  moreover have "skip_newlines start_tok (0 + int (length start_tok)) = Inl IndexError"
    by (subst skip_newlines.simps) (simp add: str_getitem_def)
  ultimately show ?thesis
    using empty_data_no_file by (simp add: filter_text_def Let_def)
qed

text \<open>
  C7 (counterexample): the start marker is missing from the text \<open>no marker\<close>, and with
  the filtered file already in the \<open>data\<close> directory \<open>filter_text\<close> returns the content of
  that file and reports the cache, not the format.
\<close>

theorem C7_cached_file_hides_missing_marker:
  "missing (lit ''no marker'') start_tok
   \<and> filter_text offline (lit ''no marker'') (lit ''data'') (lit ''complete_shakespeare.txt'')
        cached_data
       = (Inr (Some (lit ''To be'')),
          cached_data\<lparr>printed := [Reading_from_cached_file (lit ''data/complete_shakespeare.txt'')]\<rparr>)"
proof -
  have f: "file_at cached_data (path_join (lit ''data'') (lit ''complete_shakespeare.txt''))
      = Some ''To be''"
    by (simp only: path_join_data cached_data_files)
  have "filter_text offline (lit ''no marker'') (lit ''data'') (lit ''complete_shakespeare.txt'')
        cached_data
      = (Inr (Some (lit ''To be'')),
         cached_data\<lparr>printed := [Reading_from_cached_file (lit ''data/complete_shakespeare.txt'')]\<rparr>)"
    by (simp add: filter_text_cached [OF f] path_join_data py_print_def)
       (simp add: offline_def cached_data_def lit_def)
  with start_tok_missing_example show ?thesis by simp
qed

section \<open>Properties of the word lists\<close>

lemma set_list_set: "set (list_set I xs) = set xs"
  by (simp add: list_set_def)

lemma uk_filter_all:
  "list_all (alpha_lower I) filtered_words
   \<Longrightarrow> list_all (alpha_lower I) (uk_filter I filtered_words words)"
  by (induction words arbitrary: filtered_words) (auto simp: alpha_lower_def)

lemma get_uk_english_word_list_all:
  assumes "get_uk_english_word_list I E directory w = (Inr (Some uk_word_list), w')"
  shows "list_all (alpha_lower I) uk_word_list"
proof -
  have "\<exists>words. uk_word_list = uk_filter I [] words"
    using assms
    by (auto simp: get_uk_english_word_list_def Let_def
        split: if_splits sum.splits prod.splits)
  then show ?thesis using uk_filter_all [of I "[]"] by auto
qed

lemma lower_alpha_words_set:
  "set (lower_alpha_words I filtered_words words)
     = set filtered_words \<union> str_lower I ` {word \<in> set words. str_isalpha I word}"
  by (induction words arbitrary: filtered_words) auto

lemma get_words_set:
  "set (get_words I corpus)
     = str_lower I ` {word \<in> set (tokens corpus). str_isalpha I word}"
  by (simp add: get_words_def Let_def set_list_set lower_alpha_words_set)

text \<open>
  The lowercase of an alphabetic code point other than U+0130 is one alphabetic code
  point that is its own lowercase: by the tables for the code points written out, by the
  database for the others.
\<close>

lemma lower_at_letter:
  assumes "isalpha_cp I c" and "c \<noteq> 304" and "lower_keeps_letters I \<or> c < 256"
  shows "\<exists>c'. lower_at I s i c = [c'] \<and> isalpha_cp I c' \<and> lower_cp I c' = [c'] \<and> c' \<noteq> 931"
proof -
  consider "65 \<le> c \<and> c \<le> 90" | "192 \<le> c \<and> c \<le> 222 \<and> c \<noteq> 215"
    | "c < 256 \<and> \<not> (65 \<le> c \<and> c \<le> 90) \<and> \<not> (192 \<le> c \<and> c \<le> 222 \<and> c \<noteq> 215)"
    | "c = 931" | "c = 962 \<or> c = 963"
    | "256 \<le> c \<and> c \<noteq> 931 \<and> c \<noteq> 962 \<and> c \<noteq> 963"
    by linarith
  then show ?thesis
  proof cases
    case 1
    then show ?thesis by (simp add: lower_at_def lower_cp_def isalpha_cp_def)
  next
    case 2
    then have "c \<le> 214 \<or> 216 \<le> c" by arith
    with 2 show ?thesis by (simp add: lower_at_def lower_cp_def isalpha_cp_def)
  next
    case 3
    then have "lower_at I s i c = [c]" "lower_cp I c = [c]"
      by (simp_all add: lower_at_def lower_cp_def)
    with assms(1) 3 show ?thesis by simp
  next
    case 4
    then show ?thesis by (simp add: lower_at_def lower_cp_def isalpha_cp_def)
  next
    case 5
    then have "lower_at I s i c = [c]" "lower_cp I c = [c]"
      by (auto simp: lower_at_def lower_cp_def)
    with assms(1) 5 show ?thesis by auto
  next
    case 6
    with assms have k: "lower_keeps_letters I" and a: "alphabetic I c"
      by (simp_all add: isalpha_cp_def)
    from k a 6 assms(2) obtain c' where
      c': "to_lower I c = [c']" "c' \<noteq> 931" "isalpha_cp I c'" "lower_cp I c' = [c']"
      unfolding lower_keeps_letters_def by blast
    from 6 assms(2) have "lower_at I s i c = to_lower I c"
      by (simp add: lower_at_def lower_cp_def)
    with c' show ?thesis by simp
  qed
qed

lemma lower_from_letters:
  assumes "list_all (\<lambda>c. isalpha_cp I c \<and> c \<noteq> 304 \<and> (lower_keeps_letters I \<or> c < 256)) cs"
  shows "list_all (\<lambda>c'. isalpha_cp I c' \<and> lower_cp I c' = [c'] \<and> c' \<noteq> 931) (lower_from I s i cs)
     \<and> (cs \<noteq> [] \<longrightarrow> lower_from I s i cs \<noteq> [])"
  using assms
proof (induction cs arbitrary: i)
  case Nil
  show ?case by simp
next
  case (Cons c cs)
  from Cons.prems lower_at_letter [of I c s i] obtain c' where
    c': "lower_at I s i c = [c']" "isalpha_cp I c'" "lower_cp I c' = [c']" "c' \<noteq> 931"
    by auto
  from Cons.prems have "list_all (\<lambda>c. isalpha_cp I c \<and> c \<noteq> 304 \<and> (lower_keeps_letters I \<or> c < 256)) cs"
    by simp
  from Cons.IH [OF this, of "Suc i"] c' show ?case by simp
qed

lemma lower_from_fixed:
  "list_all (\<lambda>c. isalpha_cp I c \<and> lower_cp I c = [c] \<and> c \<noteq> 931) cs \<Longrightarrow> lower_from I s i cs = cs"
  by (induction cs arbitrary: i) (simp_all add: lower_at_def)

lemma alpha_lower_str_lower:
  assumes "str_isalpha I word"
    and "list_all (\<lambda>c. c \<noteq> 304 \<and> (lower_keeps_letters I \<or> c < 256)) word"
  shows "alpha_lower I (str_lower I word)"
proof -
  from assms have "list_all (\<lambda>c. isalpha_cp I c \<and> c \<noteq> 304 \<and> (lower_keeps_letters I \<or> c < 256)) word"
    and ne: "word \<noteq> []"
    by (auto simp: str_isalpha_def list_all_iff)
  from lower_from_letters [OF this(1), of word 0]
  have l: "list_all (\<lambda>c'. isalpha_cp I c' \<and> lower_cp I c' = [c'] \<and> c' \<noteq> 931) (str_lower I word)"
    and n: "str_lower I word \<noteq> []"
    using ne by (simp_all add: str_lower_def)
  from l have a: "list_all (isalpha_cp I) (str_lower I word)" by (simp add: list_all_iff)
  from lower_from_fixed [OF l] have "str_lower I (str_lower I word) = str_lower I word"
    by (simp add: str_lower_def)
  with a n show ?thesis by (simp add: alpha_lower_def str_isalpha_def)
qed

lemma split_ws_chars:
  "x \<in> set (split_ws cur s) \<Longrightarrow> set x \<subseteq> set cur \<union> set s"
proof (induction s arbitrary: cur)
  case Nil
  then show ?case by (auto split: if_splits)
next
  case (Cons c cs)
  show ?case
  proof (cases "isspace_cp c")
    case True
    with Cons.prems have "x = cur \<or> x \<in> set (split_ws [] cs)" by (auto split: if_splits)
    then show ?thesis
    proof
      assume "x = cur" then show ?thesis by auto
    next
      assume "x \<in> set (split_ws [] cs)"
      from Cons.IH [OF this] show ?thesis by auto
    qed
  next
    case False
    with Cons.prems have "x \<in> set (split_ws (cur @ [c]) cs)" by simp
    from Cons.IH [OF this] show ?thesis by auto
  qed
qed

lemma fold_str_remove_chars: "set (fold str_remove ps corpus) \<subseteq> set corpus"
proof (induction ps arbitrary: corpus)
  case Nil
  show ?case by simp
next
  case (Cons p ps)
  have "set (fold str_remove ps (str_remove p corpus)) \<subseteq> set (str_remove p corpus)"
    by (rule Cons.IH)
  also have "\<dots> \<subseteq> set corpus" by (auto simp: str_remove_def)
  finally show ?case by simp
qed

lemma tokens_chars: "word \<in> set (tokens corpus) \<Longrightarrow> set word \<subseteq> set corpus"
  using split_ws_chars [of word "[]" "fold str_remove punctuation corpus"]
    fold_str_remove_chars [of punctuation corpus]
  by (auto simp: tokens_def str_split_def)

lemma get_words_all:
  assumes "list_all (\<lambda>c. c \<noteq> 304 \<and> (lower_keeps_letters I \<or> c < 256)) corpus"
  shows "list_all (alpha_lower I) (get_words I corpus)"
proof -
  have "alpha_lower I x" if "x \<in> set (get_words I corpus)" for x
  proof -
    from that obtain word where
      word: "word \<in> set (tokens corpus)" "str_isalpha I word" "x = str_lower I word"
      by (auto simp: get_words_set)
    from tokens_chars [OF word(1)] assms
    have "list_all (\<lambda>c. c \<noteq> 304 \<and> (lower_keeps_letters I \<or> c < 256)) word"
      by (auto simp: list_all_iff)
    with word show ?thesis by (simp add: alpha_lower_str_lower)
  qed
  then show ?thesis by (simp add: list_all_iff)
qed

text \<open>
  C8 (as amended): every member of the list returned by \<open>get_uk_english_word_list\<close> is
  alphabetic and equal to its own lowercase. The members of the list returned by
  \<open>get_words\<close> are the lowercases of the alphabetic tokens of the corpus. Given that the
  Unicode database maps every alphabetic code point other than U+0130 to one alphabetic
  code point that is its own lowercase, the lowercase of an alphabetic token without
  U+0130 is alphabetic and equal to its own lowercase; so for a corpus without U+0130
  every member of the list of \<open>get_words\<close>, and of its deduplicated union with the list of
  \<open>get_uk_english_word_list\<close>, is alphabetic and equal to its own lowercase. For a corpus
  with no code point above U+00FF this holds without the given.
\<close>

theorem C8_word_lists_alphabetic_lowercase:
  "(get_uk_english_word_list I E directory w = (Inr (Some uk_word_list), w')
      \<longrightarrow> list_all (alpha_lower I) uk_word_list)
   \<and> set (get_words I corpus)
       = str_lower I ` {word \<in> set (tokens corpus). str_isalpha I word}
   \<and> (lower_keeps_letters I \<longrightarrow>
        (\<forall>word \<in> set (tokens corpus).
           str_isalpha I word \<and> 304 \<notin> set word \<longrightarrow> alpha_lower I (str_lower I word)))
   \<and> (lower_keeps_letters I \<and> 304 \<notin> set corpus
      \<longrightarrow> list_all (alpha_lower I) (get_words I corpus))
   \<and> (lower_keeps_letters I \<and> 304 \<notin> set corpus
       \<and> get_uk_english_word_list I E directory w = (Inr (Some uk_word_list), w')
      \<longrightarrow> list_all (alpha_lower I) (all_words I (get_words I corpus) uk_word_list))
   \<and> (latin1 corpus \<longrightarrow> list_all (alpha_lower I) (get_words I corpus))"
proof (intro conjI impI ballI)
  show "set (get_words I corpus) = str_lower I ` {word \<in> set (tokens corpus). str_isalpha I word}"
    by (rule get_words_set)
next
  assume "get_uk_english_word_list I E directory w = (Inr (Some uk_word_list), w')"
  then show "list_all (alpha_lower I) uk_word_list" by (rule get_uk_english_word_list_all)
next
  fix word
  assume "lower_keeps_letters I" and "str_isalpha I word \<and> 304 \<notin> set word"
  then show "alpha_lower I (str_lower I word)"
    by (intro alpha_lower_str_lower) (auto simp: list_all_iff)
next
  assume "lower_keeps_letters I \<and> 304 \<notin> set corpus"
  then show "list_all (alpha_lower I) (get_words I corpus)"
    by (intro get_words_all) (auto simp: list_all_iff)
next
  assume a: "lower_keeps_letters I \<and> 304 \<notin> set corpus
       \<and> get_uk_english_word_list I E directory w = (Inr (Some uk_word_list), w')"
  then have "list_all (alpha_lower I) (get_words I corpus)"
    by (intro get_words_all) (auto simp: list_all_iff)
  moreover from a have "list_all (alpha_lower I) uk_word_list"
    by (blast intro: get_uk_english_word_list_all)
  ultimately show "list_all (alpha_lower I) (all_words I (get_words I corpus) uk_word_list)"
    by (auto simp: all_words_def set_list_set list_all_iff)
next
  assume "latin1 corpus"
  then show "list_all (alpha_lower I) (get_words I corpus)"
    by (intro get_words_all) (auto simp: latin1_def list_all_iff)
qed

lemma basic_keeps_letters: "lower_keeps_letters basic"
  by (simp add: lower_keeps_letters_def basic_def)

lemma tokens_example:
  "tokens (lit ''To be, or Not to BE.'')
     = [lit ''To'', lit ''be'', lit ''or'', lit ''Not'', lit ''to'', lit ''BE'']"
  by (simp add: tokens_def punctuation_def str_remove_def str_split_def isspace_cp_def lit_def)

lemma lower_examples:
  "str_lower I (lit ''To'') = lit ''to''" "str_lower I (lit ''be'') = lit ''be''"
  "str_lower I (lit ''or'') = lit ''or''" "str_lower I (lit ''Not'') = lit ''not''"
  "str_lower I (lit ''to'') = lit ''to''" "str_lower I (lit ''BE'') = lit ''be''"
  by (simp_all add: str_lower_def lower_at_def lower_cp_def lit_def)

lemma isalpha_examples:
  "str_isalpha I (lit ''To'')" "str_isalpha I (lit ''be'')" "str_isalpha I (lit ''or'')"
  "str_isalpha I (lit ''Not'')" "str_isalpha I (lit ''to'')" "str_isalpha I (lit ''BE'')"
  by (simp_all add: str_isalpha_def isalpha_cp_def lit_def)

theorem C8_word_lists_alphabetic_lowercase_witness:
  "get_uk_english_word_list basic offline (lit ''data'') cached_data
     = (Inr (Some [lit ''ab'']),
        py_print (Reading_from_cached_file (lit ''data/ukenglish.txt'')) cached_data)
   \<and> lower_keeps_letters basic
   \<and> 304 \<notin> set (lit ''To be, or Not to BE.'')
   \<and> latin1 (lit ''To be, or Not to BE.'')
   \<and> lit ''Not'' \<in> set (tokens (lit ''To be, or Not to BE.''))
   \<and> str_isalpha basic (lit ''Not'') \<and> 304 \<notin> set (lit ''Not'')
   \<and> alpha_lower basic (str_lower basic (lit ''Not''))
   \<and> set (get_words basic (lit ''To be, or Not to BE.''))
       = {lit ''to'', lit ''be'', lit ''or'', lit ''not''}
   \<and> list_all (alpha_lower basic) (get_words basic (lit ''To be, or Not to BE.''))
   \<and> list_all (alpha_lower basic)
        (all_words basic (get_words basic (lit ''To be, or Not to BE.'')) [lit ''ab''])"
proof -
  let ?c = "lit ''To be, or Not to BE.''"
  have f: "file_at cached_data (path_join (lit ''data'') (lit ''ukenglish.txt''))
      = Some (''ab'' @ [CHR 0x0A] @ ''Cd'' @ [CHR 0x0A] @ ''e2'')"
    by (simp only: path_join_data cached_data_files)
  have g: "get_uk_english_word_list basic offline (lit ''data'') cached_data
     = (Inr (Some [lit ''ab'']),
        py_print (Reading_from_cached_file (lit ''data/ukenglish.txt'')) cached_data)"
    by (simp only: get_uk_english_word_list_cached [OF f] uk_filter_example path_join_data)
  note k = basic_keeps_letters
  have n: "304 \<notin> set ?c" by (simp add: lit_def)
  have l: "latin1 ?c" by (simp add: latin1_def lit_def)
  have m: "lit ''Not'' \<in> set (tokens ?c)" by (simp add: tokens_example)
  have a: "str_isalpha basic (lit ''Not'')" by (rule isalpha_examples)
  have n': "304 \<notin> set (lit ''Not'')" by (simp add: lit_def)
  note t = C8_word_lists_alphabetic_lowercase
    [of basic offline "lit ''data''" cached_data "[lit ''ab'']"
        "py_print (Reading_from_cached_file (lit ''data/ukenglish.txt'')) cached_data" ?c]
  from t k m a n' have r1: "alpha_lower basic (str_lower basic (lit ''Not''))" by blast
  from t have "set (get_words basic ?c)
      = str_lower basic ` {word \<in> set (tokens ?c). str_isalpha basic word}"
    by blast
  also have "{word \<in> set (tokens ?c). str_isalpha basic word} = set (tokens ?c)"
    by (auto simp: tokens_example isalpha_examples)
  also have "str_lower basic ` set (tokens ?c) = {lit ''to'', lit ''be'', lit ''or'', lit ''not''}"
    by (auto simp: tokens_example lower_examples)
  finally have r2: "set (get_words basic ?c) = {lit ''to'', lit ''be'', lit ''or'', lit ''not''}" .
  from t k n have r3: "list_all (alpha_lower basic) (get_words basic ?c)" by blast
  from t k n g have r4: "list_all (alpha_lower basic) (all_words basic (get_words basic ?c) [lit ''ab''])"
    by blast
  from g k n l m a n' r1 r2 r3 r4 show ?thesis by blast
qed

text \<open>
  C8 (counterexample): the corpus of the one character U+0130 is an alphabetic token; its
  lowercase is the two code points U+0069 U+0307, which \<open>get_words\<close> returns and which
  is not alphabetic.
\<close>

theorem C8_lowercase_not_alphabetic:
  "str_isalpha basic [304] \<and> get_words basic [304] = [[105, 775]]
   \<and> \<not> str_isalpha basic [105, 775]"
  by (simp add: get_words_def Let_def list_set_def tokens_def punctuation_def str_remove_def
      str_split_def isspace_cp_def str_isalpha_def isalpha_cp_def str_lower_def lower_at_def
      lower_cp_def basic_def)

end
